theory Spec2Isabelle
  imports Complex_Main "HOL-Library.Log_Nat"
begin

section \<open>Data of the host worksheet API\<close>

text \<open>
  The functions of \<^verbatim>\<open>src/utils.js\<close> work on plain JavaScript objects. An object written
  as a literal is modelled by its own properties, as a map from property names to
  values, and has \<^verbatim>\<open>Object.prototype\<close> as its prototype: reading a name the object does
  not own gives the member of that name inherited from \<^verbatim>\<open>Object.prototype\<close>, if there is
  one, and \<^verbatim>\<open>undefined\<close> otherwise. Reading a property of \<^verbatim>\<open>undefined\<close>, or calling
  something that is no function, raises a \<^verbatim>\<open>TypeError\<close>, the only exception these
  functions raise themselves.
\<close>

datatype error = TypeError

text \<open>
  The names of the members of \<^verbatim>\<open>Object.prototype\<close>, as the language standard (with its
  annex for browsers) has them. All are functions, but for \<^verbatim>\<open>__proto__\<close>, an accessor
  that answers the prototype object itself.
\<close>

definition ObjectPrototypeNames :: "string list" where
  "ObjectPrototypeNames =
     [''constructor'', ''__defineGetter__'', ''__defineSetter__'', ''hasOwnProperty'',
      ''__lookupGetter__'', ''__lookupSetter__'', ''isPrototypeOf'', ''propertyIsEnumerable'',
      ''toString'', ''valueOf'', ''__proto__'', ''toLocaleString'']"

text \<open>A column descriptor of a data table: \<^verbatim>\<open>{ fieldName, index }\<close>.\<close>

record Column =
  fieldName :: string
  index :: nat

text \<open>
  A \<^verbatim>\<open>DataValue\<close> cell. Only its \<^verbatim>\<open>.value\<close> is ever read (selector \<open>dv_value\<close>); the
  type \<open>'v\<close> of these primitives is left open.
\<close>

record 'v DataValue =
  dv_value :: 'v

text \<open>A data table or a page of one: \<^verbatim>\<open>{ columns, data }\<close> with \<^verbatim>\<open>data[i][k]\<close> a cell.\<close>

record 'v DataTable =
  columns :: "Column list"
  data :: "'v DataValue list list"

text \<open>
  The values read from a named row: \<^verbatim>\<open>undefined\<close>, the number under \<^verbatim>\<open>$tupleId\<close>, a cell,
  or the member of the given name inherited from \<^verbatim>\<open>Object.prototype\<close>.
\<close>

datatype 'v jsval = Undefined | Number nat | Data "'v DataValue" | Inherited string

text \<open>
  A named row: the own properties of an object whose prototype is \<^verbatim>\<open>Object.prototype\<close>.
\<close>

type_synonym 'v row = "string \<rightharpoonup> 'v jsval"

text \<open>
  \<^verbatim>\<open>row[name]\<close>: a property read. An own property wins, also one that holds
  \<^verbatim>\<open>undefined\<close>; otherwise the prototype answers.
\<close>

definition getProp :: "'v row \<Rightarrow> string \<Rightarrow> 'v jsval" where
  "getProp row nm =
     (case row nm of
        Some v \<Rightarrow> v
      | None \<Rightarrow> if nm \<in> set ObjectPrototypeNames then Inherited nm else Undefined)"

text \<open>\<^verbatim>\<open>data[i][k]\<close>: an array read, \<^verbatim>\<open>undefined\<close> past the end.\<close>

definition cell :: "'v DataValue list \<Rightarrow> nat \<Rightarrow> 'v jsval" where
  "cell cells k = (if k < length cells then Data (cells ! k) else Undefined)"

text \<open>The visual specification: fields, encodings, marks cards.\<close>

record Field =
  name :: string

record Encoding =
  id_enc :: string
  field_enc :: Field

record MarksSpecification =
  encodings :: "Encoding list"

record VisualSpecification =
  activeMarksSpecificationIndex :: int
  marksSpecifications :: "MarksSpecification list"

text \<open>
  The encoding map is an object whose keys are encoding ids; its entries are kept in
  the order in which the keys were created.
\<close>

type_synonym EncodingMap = "(string \<times> Field list) list"


section \<open>getEncodingMap\<close>

text \<open>
  \<^verbatim>\<open>if (!encodingMap[encoding.id]) encodingMap[encoding.id] = [];\<close> The map starts as
  \<^verbatim>\<open>{}\<close>, so what is read under an id is a list the map owns, or a member inherited from
  \<^verbatim>\<open>Object.prototype\<close>, or \<^verbatim>\<open>undefined\<close>. Lists and inherited members are truthy: a new list
  is stored only in the last case.
\<close>

definition ensureList :: "string \<Rightarrow> EncodingMap \<Rightarrow> EncodingMap" where
  "ensureList k em =
     (if map_of em k = None \<and> k \<notin> set ObjectPrototypeNames then em @ [(k, [])] else em)"

text \<open>The list under an own key, with one more field at its end.\<close>

fun appendField :: "string \<Rightarrow> Field \<Rightarrow> EncodingMap \<Rightarrow> EncodingMap" where
  "appendField k f [] = []"
| "appendField k f ((k', fs) # em) =
     (if k' = k then (k', fs @ [f]) # em else (k', fs) # appendField k f em)"

text \<open>
  \<^verbatim>\<open>encodingMap[encoding.id].push(encoding.field);\<close> Only a list the map owns has a
  \<^verbatim>\<open>push\<close>: on an inherited member (or on \<^verbatim>\<open>undefined\<close>) the call raises.
\<close>

definition push :: "string \<Rightarrow> Field \<Rightarrow> EncodingMap \<Rightarrow> error + EncodingMap" where
  "push k f em =
     (case map_of em k of None \<Rightarrow> Inl TypeError | Some fs \<Rightarrow> Inr (appendField k f em))"

text \<open>The body of the loop over the encodings of the marks card.\<close>

definition addEncoding :: "Encoding \<Rightarrow> EncodingMap \<Rightarrow> error + EncodingMap" where
  "addEncoding encoding em =
     push (id_enc encoding) (field_enc encoding) (ensureList (id_enc encoding) em)"

text \<open>The loop; the first exception ends it.\<close>

fun addEncodings :: "Encoding list \<Rightarrow> EncodingMap \<Rightarrow> error + EncodingMap" where
  "addEncodings [] em = Inr em"
| "addEncodings (encoding # rest) em =
     (case addEncoding encoding em of
        Inl e \<Rightarrow> Inl e
      | Inr em' \<Rightarrow> addEncodings rest em')"

text \<open>
  \<^verbatim>\<open>visualSpec.marksSpecifications[i]\<close> is \<^verbatim>\<open>undefined\<close> past the end of the list, and
  reading \<^verbatim>\<open>.encodings\<close> of it raises.
\<close>

definition getEncodingMap :: "VisualSpecification \<Rightarrow> error + EncodingMap" where
  "getEncodingMap visualSpec =
     (if activeMarksSpecificationIndex visualSpec < 0 then Inr []
      else
        let i = nat (activeMarksSpecificationIndex visualSpec) in
        if i < length (marksSpecifications visualSpec)
        then addEncodings (encodings (marksSpecifications visualSpec ! i)) []
        else Inl TypeError)"


section \<open>convertToListOfNamedRows and getSummaryDataTable\<close>

text \<open>
  \<^verbatim>\<open>row[columns[j].fieldName] = data[i][columns[j].index];\<close> The assignment stores an own
  property under every name but one: under \<^verbatim>\<open>__proto__\<close> it reaches the setter inherited
  from \<^verbatim>\<open>Object.prototype\<close>, which makes the cell the prototype of the row. What such a
  row answers for names it does not own, and whether later assignments to it succeed,
  depends on the host's class of cells, which is not part of the repository. A column of
  that name is therefore outside the model, and the statements below about rows built
  from a table assume that the table has none.
\<close>

definition setColumn :: "'v DataValue list \<Rightarrow> Column \<Rightarrow> 'v row \<Rightarrow> 'v row" where
  "setColumn cells col row = row(fieldName col \<mapsto> cell cells (index col))"

text \<open>
  The body of the outer loop for row \<open>i\<close> of a page: the object literal
  \<^verbatim>\<open>{ $tupleId: i + 1 }\<close>, then one assignment per column, in column order.
\<close>

definition namedRow :: "Column list \<Rightarrow> 'v DataValue list \<Rightarrow> nat \<Rightarrow> 'v row" where
  "namedRow cols cells i = fold (setColumn cells) cols [''$tupleId'' \<mapsto> Number (i + 1)]"

definition convertToListOfNamedRows :: "'v DataTable \<Rightarrow> 'v row list" where
  "convertToListOfNamedRows dataTablePage =
     map (\<lambda>i. namedRow (columns dataTablePage) (data dataTablePage ! i) i)
       [0..<length (data dataTablePage)]"

text \<open>
  The data table reader is modelled by the list of its pages, in page order; the loop
  awaits one page after the other and concatenates.
\<close>

definition getSummaryDataTable :: "'v DataTable list \<Rightarrow> 'v row list" where
  "getSummaryDataTable pages =
     fold (\<lambda>dataTablePage rows. rows @ convertToListOfNamedRows dataTablePage) pages []"


section \<open>getDataAndVisualSpec\<close>

text \<open>The values an encoded row holds: the number under \<^verbatim>\<open>$tupleId\<close>, or a channel's array.\<close>

datatype 'v encval = TupleId nat | Values "'v jsval list"

type_synonym 'v encodedRow = "string \<rightharpoonup> 'v encval"

text \<open>
  One round of \<^verbatim>\<open>for (const encName in encodingMap)\<close>: a fresh array under the key, filled
  with \<^verbatim>\<open>row[field.name]\<close> for each of the key's fields.
\<close>

definition encodeChannel :: "'v row \<Rightarrow> string \<times> Field list \<Rightarrow> 'v encodedRow \<Rightarrow> 'v encodedRow" where
  "encodeChannel row entry encodedRow =
     (case entry of (encName, fieldList) \<Rightarrow>
        encodedRow(encName \<mapsto> Values (map (\<lambda>field. getProp row (name field)) fieldList)))"

text \<open>
  The body of the loop over the rows for one row: the object literal
  \<^verbatim>\<open>{ $tupleId: tupleId }\<close>, then one round per key of the encoding map. (\<^verbatim>\<open>for ... in\<close>
  visits keys that look like array indices before the others; the entries here are
  visited in creation order, and \<open>encodeRow_get\<close> below shows that the order does not
  matter.)
\<close>

definition encodeRow :: "EncodingMap \<Rightarrow> 'v row \<Rightarrow> nat \<Rightarrow> 'v encodedRow" where
  "encodeRow em row tupleId = fold (encodeChannel row) em [''$tupleId'' \<mapsto> TupleId tupleId]"

text \<open>
  The loop itself, with its state: the counter \<^verbatim>\<open>tupleId\<close> and the list built so far.
\<close>

definition encodeStep ::
  "EncodingMap \<Rightarrow> 'v row \<Rightarrow> nat \<times> 'v encodedRow list \<Rightarrow> nat \<times> 'v encodedRow list" where
  "encodeStep em row state =
     (case state of (tupleId, encoded) \<Rightarrow> (tupleId + 1, encoded @ [encodeRow em row tupleId]))"

definition encodeData :: "EncodingMap \<Rightarrow> 'v row list \<Rightarrow> 'v encodedRow list" where
  "encodeData em rows = snd (fold (encodeStep em) rows (1, []))"

record 'v DataAndVisualSpec =
  originalData :: "'v row list"
  encodedData :: "'v encodedRow list"
  visualSpec :: VisualSpecification
  encodingMap :: EncodingMap

text \<open>
  The worksheet is modelled by what its two calls answer: the pages of the summary data
  and the visual specification.
\<close>

definition getDataAndVisualSpec ::
  "'v DataTable list \<Rightarrow> VisualSpecification \<Rightarrow> error + 'v DataAndVisualSpec" where
  "getDataAndVisualSpec pages vs =
     (case getEncodingMap vs of
        Inl e \<Rightarrow> Inl e
      | Inr em \<Rightarrow>
          Inr \<lparr>originalData = getSummaryDataTable pages,
               encodedData = encodeData em (getSummaryDataTable pages),
               visualSpec = vs,
               encodingMap = em\<rparr>)"


section \<open>findIdsOfMarks\<close>

text \<open>The marks collection of a selection: \<^verbatim>\<open>selectedMarks.data\<close> is a list of data tables.\<close>

record 'v MarksCollection =
  data_mc :: "'v DataTable list"

text \<open>
  \<^verbatim>\<open>x.value\<close> converted to a string, for \<open>x\<close> read from a row. Reading \<^verbatim>\<open>.value\<close> of
  \<^verbatim>\<open>undefined\<close> raises; a number has no such property and neither has a member of
  \<^verbatim>\<open>Object.prototype\<close>, which gives \<^verbatim>\<open>undefined\<close> and the string \<^verbatim>\<open>"undefined"\<close>. The
  conversion of a cell's primitive to a string is the parameter \<open>toStr\<close>.
\<close>

definition valueString :: "('v \<Rightarrow> string) \<Rightarrow> 'v jsval \<Rightarrow> error + string" where
  "valueString toStr x =
     (case x of
        Undefined \<Rightarrow> Inl TypeError
      | Number n \<Rightarrow> Inr ''undefined''
      | Data d \<Rightarrow> Inr (toStr (dv_value d))
      | Inherited nm \<Rightarrow> Inr ''undefined'')"

text \<open>
  The inner loop \<^verbatim>\<open>for (const col of columns) key += mark[col.fieldName].value + '\x00'\<close>,
  started with the key built so far.
\<close>

fun compositeKey :: "('v \<Rightarrow> string) \<Rightarrow> Column list \<Rightarrow> 'v row \<Rightarrow> string \<Rightarrow> error + string" where
  "compositeKey toStr [] mark key = Inr key"
| "compositeKey toStr (col # cols) mark key =
     (case valueString toStr (getProp mark (fieldName col)) of
        Inl e \<Rightarrow> Inl e
      | Inr s \<Rightarrow> compositeKey toStr cols mark (key @ s @ [CHR 0x00]))"

text \<open>The loop over the selected rows, filling \<^verbatim>\<open>selectedMarkMap\<close>.\<close>

fun selectedLoop ::
  "('v \<Rightarrow> string) \<Rightarrow> Column list \<Rightarrow> 'v row list \<Rightarrow> (string \<rightharpoonup> 'v row) \<Rightarrow> error + (string \<rightharpoonup> 'v row)" where
  "selectedLoop toStr cols [] selectedMarkMap = Inr selectedMarkMap"
| "selectedLoop toStr cols (selectedMark # rest) selectedMarkMap =
     (case compositeKey toStr cols selectedMark [] of
        Inl e \<Rightarrow> Inl e
      | Inr key \<Rightarrow> selectedLoop toStr cols rest (selectedMarkMap(key \<mapsto> selectedMark)))"

text \<open>The loop over all marks, with the counter \<^verbatim>\<open>tupleId\<close> and the set built so far.\<close>

fun marksLoop ::
  "('v \<Rightarrow> string) \<Rightarrow> Column list \<Rightarrow> (string \<rightharpoonup> 'v row) \<Rightarrow> 'v row list \<Rightarrow> nat \<Rightarrow> nat set \<Rightarrow> error + nat set" where
  "marksLoop toStr cols selectedMarkMap [] tupleId selectedMarksIds = Inr selectedMarksIds"
| "marksLoop toStr cols selectedMarkMap (mark # rest) tupleId selectedMarksIds =
     (case compositeKey toStr cols mark [] of
        Inl e \<Rightarrow> Inl e
      | Inr key \<Rightarrow>
          marksLoop toStr cols selectedMarkMap rest (tupleId + 1)
            (if selectedMarkMap key \<noteq> None then insert tupleId selectedMarksIds
             else selectedMarksIds))"

definition findIdsOfMarks ::
  "('v \<Rightarrow> string) \<Rightarrow> 'v row list \<Rightarrow> 'v MarksCollection \<Rightarrow> error + nat set" where
  "findIdsOfMarks toStr allMarks selectedMarks =
     (case data_mc selectedMarks of
        [] \<Rightarrow> Inr {}
      | table # _ \<Rightarrow>
          (case selectedLoop toStr (columns table) (convertToListOfNamedRows table) Map.empty of
             Inl e \<Rightarrow> Inl e
           | Inr selectedMarkMap \<Rightarrow> marksLoop toStr (columns table) selectedMarkMap allMarks 1 {}))"

text \<open>\<^verbatim>\<open>getSelectedMarks\<close>: the worksheet's answer is passed on unchanged.\<close>

definition getSelectedMarks ::
  "('v \<Rightarrow> string) \<Rightarrow> 'v MarksCollection \<Rightarrow> 'v row list \<Rightarrow> error + nat set" where
  "getSelectedMarks toStr selectedMarks allMarks = findIdsOfMarks toStr allMarks selectedMarks"


section \<open>Fog colours\<close>

text \<open>
  A JavaScript number is a binary64 value. The finite ones are rational numbers, and an
  arithmetic operation returns the exact result rounded to the nearest binary64 value,
  ties to the even significand. \<open>binary64\<close> is that rounding on the normal range (no
  overflow, no subnormal numbers: the numbers met here are far from both); a numeric
  literal of the source denotes the rounding of its decimal value.
\<close>

definition roundTiesToEven :: "rat \<Rightarrow> int" where
  "roundTiesToEven x =
     (let n = \<lfloor>x\<rfloor>; d = x - of_int n in
      if d < 1 / 2 then n else if 1 / 2 < d then n + 1 else if even n then n else n + 1)"

text \<open>The binary exponent of \<open>x \<noteq> 0\<close>: the \<open>e\<close> with \<open>2 ^ e \<le> \<bar>x\<bar> < 2 ^ (e + 1)\<close>.\<close>

definition exponent :: "rat \<Rightarrow> int" where
  "exponent x =
     (let (p, q) = quotient_of \<bar>x\<bar>; e = bitlen p - bitlen q in
      if power_int 2 e \<le> \<bar>x\<bar> then e else e - 1)"

definition binary64 :: "rat \<Rightarrow> rat" where
  "binary64 x =
     (if x = 0 then 0
      else let u = power_int 2 (exponent x - 52) in of_int (roundTiesToEven (x / u)) * u)"

definition fsub :: "rat \<Rightarrow> rat \<Rightarrow> rat" where
  "fsub x y = binary64 (x - y)"

definition fmul :: "rat \<Rightarrow> rat \<Rightarrow> rat" where
  "fmul x y = binary64 (x * y)"

text \<open>\<^verbatim>\<open>x >>> 0\<close> on a finite number: truncate towards zero, then reduce modulo \<open>2 ^ 32\<close>.\<close>

definition toUint32 :: "rat \<Rightarrow> int" where
  "toUint32 x = (if x < 0 then - \<lfloor>- x\<rfloor> else \<lfloor>x\<rfloor>) mod 2 ^ 32"

text \<open>
  What \<^verbatim>\<open>color.toRgb()\<close> answers. The colour library is not part of the repository; a
  colour is modelled by these three channels.
\<close>

record rgb =
  rgb_r :: int
  rgb_g :: int
  rgb_b :: int

definition DefaultFogBlendFactor :: rat where
  "DefaultFogBlendFactor = binary64 (1850000023841858 / 10 ^ 16)"

definition DarkBgFogBlendFactor :: rat where
  "DarkBgFogBlendFactor = binary64 (2750000059604645 / 10 ^ 16)"

definition DarkBgThreshold :: int where
  "DarkBgThreshold = 75"

definition getFogBlendFactor :: "rgb \<Rightarrow> rat" where
  "getFogBlendFactor rgbColor =
     (let isDarkBackground =
            (rgb_r rgbColor \<le> DarkBgThreshold \<and> rgb_g rgbColor \<le> DarkBgThreshold
             \<and> rgb_b rgbColor \<le> DarkBgThreshold)
      in if isDarkBackground then DarkBgFogBlendFactor else DefaultFogBlendFactor)"

definition CloseToWhite :: int where
  "CloseToWhite = 245"

record foggedBackground =
  foggedBackgroundRed :: int
  foggedBackgroundGreen :: int
  foggedBackgroundBlue :: int

text \<open>The \<^verbatim>\<open>if\<close> of \<^verbatim>\<open>computeFoggedBackgroundColor\<close>: the colour that is blended.\<close>

definition closeToWhiteColor :: "rgb \<Rightarrow> rgb" where
  "closeToWhiteColor color =
     (if CloseToWhite \<le> rgb_r color \<and> CloseToWhite \<le> rgb_g color \<and> CloseToWhite \<le> rgb_b color
      then \<lparr>rgb_r = CloseToWhite, rgb_g = CloseToWhite, rgb_b = CloseToWhite\<rparr>
      else color)"

text \<open>\<^verbatim>\<open>((1 - fogBlendFactor) * channel) >>> 0\<close>\<close>

definition foggedChannel :: "rat \<Rightarrow> int \<Rightarrow> int" where
  "foggedChannel fogBlendFactor channel =
     toUint32 (fmul (fsub 1 fogBlendFactor) (of_int channel))"

definition computeFoggedBackgroundColor :: "rgb \<Rightarrow> rat \<Rightarrow> foggedBackground" where
  "computeFoggedBackgroundColor color fogBlendFactor =
     (let rgbColor = closeToWhiteColor color in
      \<lparr>foggedBackgroundRed = foggedChannel fogBlendFactor (rgb_r rgbColor),
       foggedBackgroundGreen = foggedChannel fogBlendFactor (rgb_g rgbColor),
       foggedBackgroundBlue = foggedChannel fogBlendFactor (rgb_b rgbColor)\<rparr>)"


section \<open>Auxiliary notions\<close>

text \<open>What one round of the loop of getEncodingMap leaves in the map when it does not raise.\<close>

definition stored :: "Encoding \<Rightarrow> EncodingMap \<Rightarrow> EncodingMap" where
  "stored encoding em =
     appendField (id_enc encoding) (field_enc encoding) (ensureList (id_enc encoding) em)"


section \<open>The composite key in the words of the specification\<close>

text \<open>
  A row can be keyed when what it answers under every column's name is not \<^verbatim>\<open>undefined\<close>.
\<close>

definition readable :: "Column list \<Rightarrow> 'v row \<Rightarrow> bool" where
  "readable cols row = (\<forall>col \<in> set cols. getProp row (fieldName col) \<noteq> Undefined)"

text \<open>The string that \<^verbatim>\<open>x.value\<close> contributes to a key.\<close>

definition valueText :: "('v \<Rightarrow> string) \<Rightarrow> 'v jsval \<Rightarrow> string" where
  "valueText toStr x = (case x of Data d \<Rightarrow> toStr (dv_value d) | _ \<Rightarrow> ''undefined'')"

text \<open>
  The composite key: in column order, each column's value followed by the NUL
  character.
\<close>

definition concatKey :: "('v \<Rightarrow> string) \<Rightarrow> Column list \<Rightarrow> 'v row \<Rightarrow> string" where
  "concatKey toStr cols row =
     concat (map (\<lambda>col. valueText toStr (getProp row (fieldName col)) @ [CHR 0x00]) cols)"


section \<open>Example data\<close>

definition exampleColumns :: "Column list" where
  "exampleColumns = [\<lparr>fieldName = ''A'', index = 0\<rparr>, \<lparr>fieldName = ''B'', index = 1\<rparr>]"

text \<open>Two pages of summary data: the rows (1, x) and (2, y), then the row (2, y) again.\<close>

definition examplePage1 :: "string DataTable" where
  "examplePage1 =
     \<lparr>columns = exampleColumns,
      data = [[\<lparr>dv_value = ''1''\<rparr>, \<lparr>dv_value = ''x''\<rparr>], [\<lparr>dv_value = ''2''\<rparr>, \<lparr>dv_value = ''y''\<rparr>]]\<rparr>"

definition examplePage2 :: "string DataTable" where
  "examplePage2 =
     \<lparr>columns = exampleColumns, data = [[\<lparr>dv_value = ''2''\<rparr>, \<lparr>dv_value = ''y''\<rparr>]]\<rparr>"

text \<open>Two tables of selected marks: the row (2, y), and the row (1, x).\<close>

definition exampleSelection :: "string DataTable" where
  "exampleSelection =
     \<lparr>columns = exampleColumns, data = [[\<lparr>dv_value = ''2''\<rparr>, \<lparr>dv_value = ''y''\<rparr>]]\<rparr>"

definition exampleSelection2 :: "string DataTable" where
  "exampleSelection2 =
     \<lparr>columns = exampleColumns, data = [[\<lparr>dv_value = ''1''\<rparr>, \<lparr>dv_value = ''x''\<rparr>]]\<rparr>"

text \<open>
  A marks card with the fields A and C on the encoding \<^verbatim>\<open>edge\<close> and B on \<^verbatim>\<open>level\<close>; no row
  of the example pages has a field C.
\<close>

definition exampleSpec :: VisualSpecification where
  "exampleSpec =
     \<lparr>activeMarksSpecificationIndex = 0,
      marksSpecifications =
        [\<lparr>encodings =
            [\<lparr>id_enc = ''edge'', field_enc = \<lparr>name = ''A''\<rparr>\<rparr>,
             \<lparr>id_enc = ''level'', field_enc = \<lparr>name = ''B''\<rparr>\<rparr>,
             \<lparr>id_enc = ''edge'', field_enc = \<lparr>name = ''C''\<rparr>\<rparr>]\<rparr>]\<rparr>"

text \<open>A marks card whose only encoding has an id that names a member of \<^verbatim>\<open>Object.prototype\<close>.\<close>

definition constructorSpec :: VisualSpecification where
  "constructorSpec =
     \<lparr>activeMarksSpecificationIndex = 0,
      marksSpecifications =
        [\<lparr>encodings = [\<lparr>id_enc = ''constructor'', field_enc = \<lparr>name = ''A''\<rparr>\<rparr>]\<rparr>]\<rparr>"

text \<open>A page of summary data with the column A alone: its row has no field B.\<close>

definition narrowPage :: "string DataTable" where
  "narrowPage =
     \<lparr>columns = [\<lparr>fieldName = ''A'', index = 0\<rparr>], data = [[\<lparr>dv_value = ''1''\<rparr>]]\<rparr>"

text \<open>A table of selected marks without rows.\<close>

definition emptySelection :: "string DataTable" where
  "emptySelection = \<lparr>columns = exampleColumns, data = []\<rparr>"

definition exampleEncodingMap :: EncodingMap where
  "exampleEncodingMap =
     [(''edge'', [\<lparr>name = ''A''\<rparr>, \<lparr>name = ''C''\<rparr>]), (''level'', [\<lparr>name = ''B''\<rparr>])]"

definition white :: rgb where
  "white = \<lparr>rgb_r = 255, rgb_g = 255, rgb_b = 255\<rparr>"

definition pureRed :: rgb where
  "pureRed = \<lparr>rgb_r = 255, rgb_g = 0, rgb_b = 0\<rparr>"


section \<open>The encoding resolver\<close>


lemma keys_appendField: "map fst (appendField k f em) = map fst em"
  by (induction k f em rule: appendField.induct) auto

lemma map_of_ensureList:
  "k \<notin> set ObjectPrototypeNames \<Longrightarrow>
     map_of (ensureList k em) k' =
       (if k' = k \<and> map_of em k = None then Some [] else map_of em k')"
  by (auto simp: ensureList_def map_add_def split: option.splits)

lemma ensureList_inherited:
  "k \<in> set ObjectPrototypeNames \<Longrightarrow> ensureList k em = em"
  by (simp add: ensureList_def)

text \<open>A round of the loop raises exactly on an id that is inherited and not owned.\<close>

lemma addEncoding_eq:
  "addEncoding e em =
     (if map_of em (id_enc e) = None \<and> id_enc e \<in> set ObjectPrototypeNames
      then Inl TypeError else Inr (stored e em))"
proof (cases "id_enc e \<in> set ObjectPrototypeNames")
  case True
  then show ?thesis
    by (auto simp: addEncoding_def push_def stored_def ensureList_inherited split: option.splits)
next
  case False
  then have "map_of (ensureList (id_enc e) em) (id_enc e) \<noteq> None"
    by (simp add: map_of_ensureList)
  with False show ?thesis
    by (auto simp: addEncoding_def push_def stored_def split: option.splits)
qed


lemma keys_stored:
  "id_enc e \<notin> set ObjectPrototypeNames \<Longrightarrow>
     map fst (stored e em) =
       (if id_enc e \<in> set (map fst em) then map fst em else map fst em @ [id_enc e])"
  by (auto simp: stored_def ensureList_def keys_appendField map_of_eq_None_iff)

lemma set_keys_stored:
  assumes "id_enc e \<notin> set ObjectPrototypeNames"
  shows "fst ` set (stored e em) = insert (id_enc e) (fst ` set em)"
proof -
  have "set (map fst (stored e em)) = insert (id_enc e) (set (map fst em))"
    by (auto simp: keys_stored [OF assms])
  then show ?thesis by simp
qed

lemma addEncodings_stored:
  "\<forall>e \<in> set encs. id_enc e \<notin> set ObjectPrototypeNames \<Longrightarrow>
     addEncodings encs em = Inr (fold stored encs em)"
  by (induction encs arbitrary: em) (simp_all add: addEncoding_eq)

lemma addEncodings_inherited:
  assumes "\<exists>e \<in> set encs. id_enc e \<in> set ObjectPrototypeNames"
    and "set (map fst em) \<inter> set ObjectPrototypeNames = {}"
  shows "addEncodings encs em = Inl TypeError"
  using assms
proof (induction encs arbitrary: em)
  case Nil
  then show ?case by simp
next
  case (Cons e encs)
  show ?case
  proof (cases "id_enc e \<in> set ObjectPrototypeNames")
    case True
    with Cons.prems(2) have "id_enc e \<notin> set (map fst em)" by blast
    then have "map_of em (id_enc e) = None" by (simp add: map_of_eq_None_iff)
    with True show ?thesis by (simp add: addEncoding_eq)
  next
    case False
    with Cons.prems(1) have rest: "\<exists>e \<in> set encs. id_enc e \<in> set ObjectPrototypeNames"
      by auto
    from False Cons.prems(2)
    have "set (map fst (stored e em)) \<inter> set ObjectPrototypeNames = {}"
      by (simp add: set_keys_stored)
    with rest have "addEncodings encs (stored e em) = Inl TypeError"
      by (rule Cons.IH)
    with False show ?thesis by (simp add: addEncoding_eq)
  qed
qed


lemma distinct_keys_fold_stored:
  "\<forall>e \<in> set encs. id_enc e \<notin> set ObjectPrototypeNames \<Longrightarrow>
     distinct (map fst em) \<Longrightarrow> distinct (map fst (fold stored encs em))"
  by (induction encs arbitrary: em) (auto simp: keys_stored)


text \<open>Whether getEncodingMap raises, for an index that is not negative.\<close>

lemma getEncodingMap_eq:
  assumes "0 \<le> activeMarksSpecificationIndex vs"
  shows "getEncodingMap vs =
           (if nat (activeMarksSpecificationIndex vs) < length (marksSpecifications vs)
               \<and> (\<forall>e \<in> set (encodings (marksSpecifications vs ! nat (activeMarksSpecificationIndex vs))).
                      id_enc e \<notin> set ObjectPrototypeNames)
            then Inr (fold stored
                       (encodings (marksSpecifications vs ! nat (activeMarksSpecificationIndex vs))) [])
            else Inl TypeError)"
proof (cases "nat (activeMarksSpecificationIndex vs) < length (marksSpecifications vs)")
  case False
  with assms show ?thesis by (simp add: getEncodingMap_def)
next
  case True
  let ?encs = "encodings (marksSpecifications vs ! nat (activeMarksSpecificationIndex vs))"
  have g: "getEncodingMap vs = addEncodings ?encs []"
    using assms True by (simp add: getEncodingMap_def)
  show ?thesis
  proof (cases "\<forall>e \<in> set ?encs. id_enc e \<notin> set ObjectPrototypeNames")
    case True
    then have "addEncodings ?encs [] = Inr (fold stored ?encs [])"
      by (rule addEncodings_stored)
    with True \<open>nat (activeMarksSpecificationIndex vs) < length (marksSpecifications vs)\<close> g
    show ?thesis by simp
  next
    case False
    then have "\<exists>e \<in> set ?encs. id_enc e \<in> set ObjectPrototypeNames" by simp
    then have "addEncodings ?encs [] = Inl TypeError"
      by (rule addEncodings_inherited) simp
    with False g show ?thesis by simp
  qed
qed

lemma getEncodingMap_distinct:
  assumes "getEncodingMap vs = Inr em"
  shows "distinct (map fst em)"
proof (cases "activeMarksSpecificationIndex vs < 0")
  case True
  with assms show ?thesis by (simp add: getEncodingMap_def)
next
  case False
  then have nonneg: "0 \<le> activeMarksSpecificationIndex vs" by simp
  let ?encs = "encodings (marksSpecifications vs ! nat (activeMarksSpecificationIndex vs))"
  from assms have ok: "\<forall>e \<in> set ?encs. id_enc e \<notin> set ObjectPrototypeNames"
    and em: "em = fold stored ?encs []"
    unfolding getEncodingMap_eq [OF nonneg] by (simp_all split: if_splits)
  from ok have "distinct (map fst (fold stored ?encs []))"
    by (rule distinct_keys_fold_stored) simp
  with em show ?thesis by simp
qed

text \<open>An encoding id that names a member of \<^verbatim>\<open>Object.prototype\<close> makes the call raise.\<close>

lemma getEncodingMap_constructor: "getEncodingMap constructorSpec = Inl TypeError"
  by (simp add: constructorSpec_def getEncodingMap_def addEncoding_def push_def ensureList_def
      ObjectPrototypeNames_def)

text \<open>
  C5. Whenever the active marks specification index of a visual specification is
  negative, getEncodingMap returns the empty map, whatever the list of marks
  specifications holds.
\<close>

theorem getEncodingMap_negative_index:
  "activeMarksSpecificationIndex vs < 0 \<Longrightarrow> getEncodingMap vs = Inr []"
  by (simp add: getEncodingMap_def)

theorem getEncodingMap_negative_index_witness:
  "activeMarksSpecificationIndex (exampleSpec\<lparr>activeMarksSpecificationIndex := - 1\<rparr>) < 0
   \<and> getEncodingMap (exampleSpec\<lparr>activeMarksSpecificationIndex := - 1\<rparr>) = Inr []"
  using getEncodingMap_negative_index [of "exampleSpec\<lparr>activeMarksSpecificationIndex := - 1\<rparr>"]
  by simp




section \<open>The row materializer\<close>

lemma getSummaryDataTable_append:
  "fold (\<lambda>dataTablePage rows. rows @ convertToListOfNamedRows dataTablePage) pages acc
     = acc @ concat (map convertToListOfNamedRows pages)"
  by (induction pages arbitrary: acc) simp_all

lemma getSummaryDataTable_concat:
  "getSummaryDataTable pages = concat (map convertToListOfNamedRows pages)"
  by (simp add: getSummaryDataTable_def getSummaryDataTable_append)

lemma fold_setColumn_other:
  "k \<notin> fieldName ` set cols \<Longrightarrow> fold (setColumn cells) cols r k = r k"
  by (induction cols arbitrary: r) (auto simp: setColumn_def)

lemma namedRow_tupleId:
  "''$tupleId'' \<notin> fieldName ` set cols \<Longrightarrow> namedRow cols cells i ''$tupleId'' = Some (Number (i + 1))"
  by (simp add: namedRow_def fold_setColumn_other)

lemma convertToListOfNamedRows_nth:
  "i < length (data page) \<Longrightarrow>
     convertToListOfNamedRows page ! i = namedRow (columns page) (data page ! i) i"
  by (simp add: convertToListOfNamedRows_def)

lemma length_convertToListOfNamedRows:
  "length (convertToListOfNamedRows page) = length (data page)"
  by (simp add: convertToListOfNamedRows_def)

lemma convertToListOfNamedRows_tupleId:
  assumes "i < length (data page)" and "''$tupleId'' \<notin> fieldName ` set (columns page)"
    and "''__proto__'' \<notin> fieldName ` set (columns page)"
  shows "getProp (convertToListOfNamedRows page ! i) ''$tupleId'' = Number (i + 1)"
  using assms by (simp add: convertToListOfNamedRows_nth namedRow_tupleId getProp_def)

text \<open>The rows of a second page are numbered from 1 again, whatever the first page holds.\<close>

lemma getSummaryDataTable_page_local:
  assumes "i < length (data page2)" and "''$tupleId'' \<notin> fieldName ` set (columns page2)"
    and "''__proto__'' \<notin> fieldName ` set (columns page1)"
    and "''__proto__'' \<notin> fieldName ` set (columns page2)"
  shows "getProp (getSummaryDataTable [page1, page2] ! (length (data page1) + i)) ''$tupleId''
           = Number (i + 1)"
proof -
  have "getSummaryDataTable [page1, page2] ! (length (data page1) + i)
          = convertToListOfNamedRows page2 ! i"
    by (simp add: getSummaryDataTable_concat nth_append length_convertToListOfNamedRows)
  with assms show ?thesis by (simp add: convertToListOfNamedRows_tupleId)
qed

lemma example_rows:
  "getSummaryDataTable [examplePage1, examplePage2] =
     [[''$tupleId'' \<mapsto> Number 1, ''A'' \<mapsto> Data \<lparr>dv_value = ''1''\<rparr>, ''B'' \<mapsto> Data \<lparr>dv_value = ''x''\<rparr>],
      [''$tupleId'' \<mapsto> Number 2, ''A'' \<mapsto> Data \<lparr>dv_value = ''2''\<rparr>, ''B'' \<mapsto> Data \<lparr>dv_value = ''y''\<rparr>],
      [''$tupleId'' \<mapsto> Number 1, ''A'' \<mapsto> Data \<lparr>dv_value = ''2''\<rparr>, ''B'' \<mapsto> Data \<lparr>dv_value = ''y''\<rparr>]]"
  by (simp add: getSummaryDataTable_def convertToListOfNamedRows_def examplePage1_def
      examplePage2_def exampleColumns_def namedRow_def setColumn_def cell_def numeral_2_eq_2)

lemma narrow_rows:
  "getSummaryDataTable [narrowPage] =
     [[''$tupleId'' \<mapsto> Number 1, ''A'' \<mapsto> Data \<lparr>dv_value = ''1''\<rparr>]]"
  by (simp add: getSummaryDataTable_def convertToListOfNamedRows_def narrowPage_def
      namedRow_def setColumn_def cell_def)

text \<open>
  C1. The rows of all pages come out in page order, then row order, and the Tuple ID of
  each row is to be its 1-based position in the whole output. On the two example pages
  the output has three rows, and the third, the first row of the second page, carries
  the Tuple ID 1 where the claim asks for 3.
\<close>

theorem getSummaryDataTable_second_page_restarts:
  "length (getSummaryDataTable [examplePage1, examplePage2]) = 3
   \<and> getProp (getSummaryDataTable [examplePage1, examplePage2] ! 2) ''$tupleId'' = Number 1"
  by (simp add: example_rows getProp_def)


section \<open>The data encoder\<close>

lemma encodeData_fold:
  "fold (encodeStep em) rows (t, acc)
     = (t + length rows, acc @ map (\<lambda>i. encodeRow em (rows ! i) (t + i)) [0..<length rows])"
proof (induction rows arbitrary: t acc)
  case Nil
  show ?case by simp
next
  case (Cons r rows)
  have "map (\<lambda>i. encodeRow em ((r # rows) ! i) (t + i)) [0..<length (r # rows)]
          = encodeRow em r t # map (\<lambda>i. encodeRow em (rows ! i) (t + 1 + i)) [0..<length rows]"
    by (simp only: length_Cons map_upt_Suc) simp
  moreover have
    "fold (encodeStep em) (r # rows) (t, acc)
       = fold (encodeStep em) rows (t + 1, acc @ [encodeRow em r t])"
    by (simp add: encodeStep_def)
  ultimately show ?case
    by (simp only: Cons.IH) simp
qed

lemma encodeData_eq:
  "encodeData em rows = map (\<lambda>i. encodeRow em (rows ! i) (i + 1)) [0..<length rows]"
  unfolding encodeData_def encodeData_fold by (simp add: add.commute)

lemma fold_encodeChannel_other:
  "k \<notin> set (map fst em) \<Longrightarrow> fold (encodeChannel row) em er k = er k"
  by (induction em arbitrary: er) (auto simp: encodeChannel_def)

lemma fold_encodeChannel_channel:
  "distinct (map fst em) \<Longrightarrow> (k, fs) \<in> set em \<Longrightarrow>
     fold (encodeChannel row) em er k
       = Some (Values (map (\<lambda>field. getProp row (name field)) fs))"
proof (induction em arbitrary: er)
  case Nil
  then show ?case by simp
next
  case (Cons a em)
  show ?case
  proof (cases "(k, fs) = a")
    case True
    with Cons.prems have "k \<notin> set (map fst em)" by force
    then have "fold (encodeChannel row) (a # em) er k = encodeChannel row a er k"
      by (simp add: fold_encodeChannel_other)
    also have "\<dots> = Some (Values (map (\<lambda>field. getProp row (name field)) fs))"
      using True by (auto simp: encodeChannel_def)
    finally show ?thesis .
  next
    case False
    with Cons show ?thesis by auto
  qed
qed

lemma encodeRow_get:
  "distinct (map fst em) \<Longrightarrow>
     encodeRow em row t k =
       (case map_of em k of
          Some fs \<Rightarrow> Some (Values (map (\<lambda>field. getProp row (name field)) fs))
        | None \<Rightarrow> if k = ''$tupleId'' then Some (TupleId t) else None)"
  by (auto simp: encodeRow_def fold_encodeChannel_other fold_encodeChannel_channel map_of_eq_None_iff
      split: option.splits dest!: map_of_SomeD)

text \<open>What getDataAndVisualSpec returns: the rows, and their encoding by the resolved map.\<close>

lemma getDataAndVisualSpec_result:
  assumes "getDataAndVisualSpec pages vs = Inr res"
  shows "originalData res = getSummaryDataTable pages"
    and "getEncodingMap vs = Inr (encodingMap res)"
    and "encodedData res = encodeData (encodingMap res) (originalData res)"
    and "distinct (map fst (encodingMap res))"
proof -
  from assms obtain em where em: "getEncodingMap vs = Inr em"
    by (cases "getEncodingMap vs") (simp_all add: getDataAndVisualSpec_def)
  with assms have res: "res = \<lparr>originalData = getSummaryDataTable pages,
      encodedData = encodeData em (getSummaryDataTable pages), visualSpec = vs, encodingMap = em\<rparr>"
    by (simp add: getDataAndVisualSpec_def)
  show "originalData res = getSummaryDataTable pages" by (simp add: res)
  show "getEncodingMap vs = Inr (encodingMap res)" by (simp add: res em)
  show "encodedData res = encodeData (encodingMap res) (originalData res)" by (simp add: res)
  show "distinct (map fst (encodingMap res))" using em by (simp add: res getEncodingMap_distinct)
qed

text \<open>A channel named \<^verbatim>\<open>$tupleId\<close> takes the place of the Tuple ID in every encoded row.\<close>

lemma encodeData_tupleId_channel:
  "(encodeData [(''$tupleId'', fs)] [row] ! 0) ''$tupleId''
     = Some (Values (map (\<lambda>field. getProp row (name field)) fs))"
  by (simp add: encodeData_eq encodeRow_def encodeChannel_def)

text \<open>
  C3, as the specification has it: the i-th encoded row carries the Tuple ID of the
  i-th input row. On the rows of the two example pages the third encoded row carries 3
  and the third input row carries 1.
\<close>

theorem encodeData_tupleId_counterexample:
  "(encodeData exampleEncodingMap (getSummaryDataTable [examplePage1, examplePage2]) ! 2)
      ''$tupleId'' = Some (TupleId 3)
   \<and> (getSummaryDataTable [examplePage1, examplePage2] ! 2) ''$tupleId'' = Some (Number 1)"
  by (simp add: example_rows encodeData_eq encodeRow_def encodeChannel_def
      exampleEncodingMap_def)

text \<open>
  C3, amended. The encoder emits one encoded row per input row, in input order: the
  i-th encoded row is the encoding of the i-th input row with the counter at i (counted
  from 1). Unless the encoding map has a channel named \<^verbatim>\<open>$tupleId\<close>, that row's Tuple ID
  is i.
\<close>

theorem encodeData_positions:
  "length (encodeData em rows) = length rows
   \<and> (\<forall>i < length rows. encodeData em rows ! i = encodeRow em (rows ! i) (i + 1))
   \<and> (''$tupleId'' \<notin> set (map fst em) \<longrightarrow>
        (\<forall>i < length rows. (encodeData em rows ! i) ''$tupleId'' = Some (TupleId (i + 1))))"
  by (simp add: encodeData_eq encodeRow_def fold_encodeChannel_other)

theorem encodeData_positions_witness:
  "''$tupleId'' \<notin> set (map fst exampleEncodingMap)
   \<and> length (encodeData exampleEncodingMap (getSummaryDataTable [examplePage1, examplePage2])) = 3
   \<and> (encodeData exampleEncodingMap (getSummaryDataTable [examplePage1, examplePage2]) ! 1)
        ''$tupleId'' = Some (TupleId 2)"
  using encodeData_positions
    [of exampleEncodingMap "getSummaryDataTable [examplePage1, examplePage2]"]
  by (simp add: example_rows exampleEncodingMap_def encodeData_eq encodeRow_def
      encodeChannel_def numeral_2_eq_2)

text \<open>
  C4, as the specification has it: the entry is \<^verbatim>\<open>undefined\<close> at every position whose
  field name is absent from the row. The first example row has no property
  \<^verbatim>\<open>toString\<close>; for a channel with a field of that name the entry is the function that
  the row inherits from \<^verbatim>\<open>Object.prototype\<close>.
\<close>

theorem encodeData_inherited_counterexample:
  "(getSummaryDataTable [examplePage1, examplePage2] ! 0) ''toString'' = None
   \<and> (encodeData [(''edge'', [\<lparr>name = ''toString''\<rparr>])]
         (getSummaryDataTable [examplePage1, examplePage2]) ! 0) ''edge''
       = Some (Values [Inherited ''toString''])"
  by (simp add: example_rows encodeData_eq encodeRow_def encodeChannel_def getProp_def
      ObjectPrototypeNames_def)

text \<open>
  C4, amended. For every row and every channel of the encoding map, the encoded row maps
  the channel to a list with one entry per field assigned to the channel; the j-th
  entry is what the row answers under the name of the j-th field. Where the row has no
  property of that name the entry is \<^verbatim>\<open>undefined\<close>, unless the name is that of a member
  of \<^verbatim>\<open>Object.prototype\<close>: then the entry is that inherited member.
\<close>

theorem encodeData_channel_entries:
  assumes "distinct (map fst em)" and "(k, fs) \<in> set em" and "i < length rows"
  shows "\<exists>vs. (encodeData em rows ! i) k = Some (Values vs)
           \<and> length vs = length fs
           \<and> (\<forall>j < length fs.
                 vs ! j = getProp (rows ! i) (name (fs ! j))
                 \<and> ((rows ! i) (name (fs ! j)) = None \<longrightarrow>
                      vs ! j = (if name (fs ! j) \<in> set ObjectPrototypeNames
                                then Inherited (name (fs ! j)) else Undefined)))"
proof -
  let ?vs = "map (\<lambda>field. getProp (rows ! i) (name field)) fs"
  have "(encodeData em rows ! i) k = Some (Values ?vs)"
    using assms by (simp add: encodeData_eq encodeRow_def fold_encodeChannel_channel)
  moreover have "length ?vs = length fs" by simp
  moreover have "\<forall>j < length fs.
                 ?vs ! j = getProp (rows ! i) (name (fs ! j))
                 \<and> ((rows ! i) (name (fs ! j)) = None \<longrightarrow>
                      ?vs ! j = (if name (fs ! j) \<in> set ObjectPrototypeNames
                                 then Inherited (name (fs ! j)) else Undefined))"
    by (simp add: getProp_def)
  ultimately show ?thesis by blast
qed

theorem encodeData_channel_entries_witness:
  "distinct (map fst exampleEncodingMap)
   \<and> (''edge'', [\<lparr>name = ''A''\<rparr>, \<lparr>name = ''C''\<rparr>]) \<in> set exampleEncodingMap
   \<and> 1 < length (getSummaryDataTable [examplePage1, examplePage2])
   \<and> (encodeData exampleEncodingMap (getSummaryDataTable [examplePage1, examplePage2]) ! 1) ''edge''
       = Some (Values [Data \<lparr>dv_value = ''2''\<rparr>, Undefined])"
  using encodeData_channel_entries
    [of exampleEncodingMap "''edge''" "[\<lparr>name = ''A''\<rparr>, \<lparr>name = ''C''\<rparr>]"
        1 "getSummaryDataTable [examplePage1, examplePage2]"]
  by (simp add: example_rows exampleEncodingMap_def encodeData_eq encodeRow_def
      encodeChannel_def getProp_def ObjectPrototypeNames_def)


section \<open>The selection matcher\<close>

lemma valueString_eq:
  "valueString toStr x = (if x = Undefined then Inl TypeError else Inr (valueText toStr x))"
  by (cases x) (simp_all add: valueString_def valueText_def)

lemma compositeKey_eq:
  "compositeKey toStr cols row key =
     (if readable cols row then Inr (key @ concatKey toStr cols row) else Inl TypeError)"
  by (induction cols arbitrary: key) (simp_all add: readable_def concatKey_def valueString_eq)

lemma selectedLoop_eq:
  "selectedLoop toStr cols rows m =
     (if \<forall>row \<in> set rows. readable cols row
      then Inr (fold (\<lambda>row m. m(concatKey toStr cols row \<mapsto> row)) rows m)
      else Inl TypeError)"
  by (induction rows arbitrary: m) (simp_all add: compositeKey_eq)

lemma dom_fold_keys:
  "dom (fold (\<lambda>row m. m(concatKey toStr cols row \<mapsto> row)) rows m)
     = dom m \<union> concatKey toStr cols ` set rows"
  by (induction rows arbitrary: m) auto

lemma marksLoop_eq:
  "marksLoop toStr cols m marks t ids =
     (if \<forall>row \<in> set marks. readable cols row
      then Inr (ids \<union> {t + i | i. i < length marks \<and> concatKey toStr cols (marks ! i) \<in> dom m})
      else Inl TypeError)"
proof (induction marks arbitrary: t ids)
  case Nil
  show ?case by simp
next
  case (Cons mark marks)
  have split: "{t + i | i. i < length (mark # marks) \<and> concatKey toStr cols ((mark # marks) ! i) \<in> dom m}
      = (if concatKey toStr cols mark \<in> dom m then {t} else {})
        \<union> {t + 1 + i | i. i < length marks \<and> concatKey toStr cols (marks ! i) \<in> dom m}"
    (is "?L = ?R")
  proof (rule set_eqI)
    fix x
    show "x \<in> ?L \<longleftrightarrow> x \<in> ?R"
    proof
      assume "x \<in> ?L"
      then obtain i where i: "x = t + i" "i < length (mark # marks)"
        "concatKey toStr cols ((mark # marks) ! i) \<in> dom m" by blast
      show "x \<in> ?R"
      proof (cases i)
        case 0
        with i show ?thesis by simp
      next
        case (Suc j)
        with i have "x = t + 1 + j \<and> j < length marks \<and> concatKey toStr cols (marks ! j) \<in> dom m"
          by simp
        then show ?thesis by blast
      qed
    next
      assume "x \<in> ?R"
      then consider "concatKey toStr cols mark \<in> dom m" "x = t"
        | j where "x = t + 1 + j" "j < length marks" "concatKey toStr cols (marks ! j) \<in> dom m"
        by (auto split: if_splits)
      then show "x \<in> ?L"
      proof cases
        case 1
        then have "x = t + 0 \<and> 0 < length (mark # marks)
                   \<and> concatKey toStr cols ((mark # marks) ! 0) \<in> dom m" by simp
        then show ?thesis by blast
      next
        case 2
        then have "x = t + Suc j \<and> Suc j < length (mark # marks)
                   \<and> concatKey toStr cols ((mark # marks) ! Suc j) \<in> dom m" by simp
        then show ?thesis by blast
      qed
    qed
  qed
  show ?case
    unfolding split by (auto simp: compositeKey_eq Cons.IH)
qed

lemma example_selected_rows:
  "convertToListOfNamedRows exampleSelection =
     [[''$tupleId'' \<mapsto> Number 1, ''A'' \<mapsto> Data \<lparr>dv_value = ''2''\<rparr>, ''B'' \<mapsto> Data \<lparr>dv_value = ''y''\<rparr>]]"
  by (simp add: convertToListOfNamedRows_def exampleSelection_def exampleColumns_def
      namedRow_def setColumn_def cell_def)

lemma example_selected_rows2:
  "convertToListOfNamedRows exampleSelection2 =
     [[''$tupleId'' \<mapsto> Number 1, ''A'' \<mapsto> Data \<lparr>dv_value = ''1''\<rparr>, ''B'' \<mapsto> Data \<lparr>dv_value = ''x''\<rparr>]]"
  by (simp add: convertToListOfNamedRows_def exampleSelection2_def exampleColumns_def
      namedRow_def setColumn_def cell_def)

lemma example_selection_columns:
  "columns exampleSelection = exampleColumns" "columns exampleSelection2 = exampleColumns"
  by (simp_all add: exampleSelection_def exampleSelection2_def)

lemma example_match:
  "findIdsOfMarks (\<lambda>s. s) (getSummaryDataTable [examplePage1, examplePage2])
      \<lparr>data_mc = [exampleSelection]\<rparr> = Inr {2, 3}"
  by (auto simp: findIdsOfMarks_def example_rows example_selected_rows example_selection_columns
      exampleColumns_def getProp_def valueString_def)

lemma example_match2:
  "findIdsOfMarks (\<lambda>s. s) (getSummaryDataTable [examplePage1, examplePage2])
      \<lparr>data_mc = [exampleSelection2]\<rparr> = Inr {1}"
  by (auto simp: findIdsOfMarks_def example_rows example_selected_rows2 example_selection_columns
      exampleColumns_def getProp_def valueString_def)

text \<open>
  A first table without rows does not end the call early: every row of allMarks is keyed,
  and a row that cannot be keyed raises.
\<close>

lemma findIdsOfMarks_table_without_rows:
  "findIdsOfMarks toStr allMarks \<lparr>data_mc = \<lparr>columns = cols, data = []\<rparr> # others\<rparr> =
     (if \<forall>row \<in> set allMarks. readable cols row then Inr {} else Inl TypeError)"
  by (simp add: findIdsOfMarks_def convertToListOfNamedRows_def marksLoop_eq)

text \<open>
  C2, as the specification has it: for every allMarks the set of matching positions is
  returned. For a row without a value under a column no set is returned: the call
  raises. Here allMarks is the row of a page that has the column A alone, and the
  selected table has the columns A and B.
\<close>

theorem findIdsOfMarks_unkeyed_row_counterexample:
  "findIdsOfMarks (\<lambda>s. s) (getSummaryDataTable [narrowPage])
      \<lparr>data_mc = [exampleSelection]\<rparr> = Inl TypeError"
  by (simp add: findIdsOfMarks_def narrow_rows example_selected_rows example_selection_columns
      exampleColumns_def getProp_def valueString_def ObjectPrototypeNames_def)

text \<open>
  C2, amended. Let the first table of the selection have no column named \<^verbatim>\<open>__proto__\<close>.
  If every selected row and every row of allMarks answers something other than
  \<^verbatim>\<open>undefined\<close> under the name of each column, findIdsOfMarks returns exactly the 1-based
  positions, in the order of allMarks, of the rows whose composite key (column by
  column, the value followed by NUL) is the composite key of some selected row; rows of
  allMarks with the same key are therefore all returned, or none of them. Otherwise the
  call raises a TypeError.
\<close>

theorem findIdsOfMarks_by_key:
  assumes "''__proto__'' \<notin> fieldName ` set (columns table)"
  shows "findIdsOfMarks toStr allMarks \<lparr>data_mc = table # others\<rparr> =
     (if \<forall>row \<in> set (convertToListOfNamedRows table) \<union> set allMarks. readable (columns table) row
      then Inr {i + 1 | i. i < length allMarks
                  \<and> concatKey toStr (columns table) (allMarks ! i)
                      \<in> concatKey toStr (columns table) ` set (convertToListOfNamedRows table)}
      else Inl TypeError)"
  by (auto simp: findIdsOfMarks_def selectedLoop_eq marksLoop_eq dom_fold_keys)

theorem findIdsOfMarks_by_key_witness:
  "''__proto__'' \<notin> fieldName ` set (columns exampleSelection)
   \<and> findIdsOfMarks (\<lambda>s. s) (getSummaryDataTable [examplePage1, examplePage2])
      \<lparr>data_mc = [exampleSelection]\<rparr>
     = Inr {i + 1 | i. i < length (getSummaryDataTable [examplePage1, examplePage2])
          \<and> concatKey (\<lambda>s. s) (columns exampleSelection)
               (getSummaryDataTable [examplePage1, examplePage2] ! i)
             \<in> concatKey (\<lambda>s. s) (columns exampleSelection)
                 ` set (convertToListOfNamedRows exampleSelection)}
   \<and> {i + 1 | i. i < length (getSummaryDataTable [examplePage1, examplePage2])
          \<and> concatKey (\<lambda>s. s) (columns exampleSelection)
               (getSummaryDataTable [examplePage1, examplePage2] ! i)
             \<in> concatKey (\<lambda>s. s) (columns exampleSelection)
                 ` set (convertToListOfNamedRows exampleSelection)} = {2, 3}"
proof -
  have p: "''__proto__'' \<notin> fieldName ` set (columns exampleSelection)"
    by (simp add: example_selection_columns exampleColumns_def)
  have r: "\<forall>row \<in> set (convertToListOfNamedRows exampleSelection)
              \<union> set (getSummaryDataTable [examplePage1, examplePage2]).
       readable (columns exampleSelection) row"
    by (simp add: example_rows example_selected_rows example_selection_columns
        exampleColumns_def readable_def getProp_def)
  from findIdsOfMarks_by_key
    [OF p, of "\<lambda>s. s" "getSummaryDataTable [examplePage1, examplePage2]" "[]"]
    r example_match p
  show ?thesis by simp
qed

text \<open>
  C7, as the specification has it: without selected rows the empty set is returned and
  no column value of allMarks is read. For a selection whose table has no rows the rows
  of allMarks are keyed all the same, and the call raises on one without a value under
  a column: here the row of a page that has the column A alone, keyed by the columns A
  and B.
\<close>

theorem findIdsOfMarks_empty_table_counterexample:
  "convertToListOfNamedRows emptySelection = []
   \<and> findIdsOfMarks (\<lambda>s. s) (getSummaryDataTable [narrowPage])
        \<lparr>data_mc = [emptySelection]\<rparr> = Inl TypeError"
  by (simp add: findIdsOfMarks_def narrow_rows convertToListOfNamedRows_def emptySelection_def
      exampleColumns_def getProp_def valueString_def ObjectPrototypeNames_def)

text \<open>
  C7, amended. When the selection holds no data table, findIdsOfMarks returns the empty
  set whatever allMarks is: also for rows that cannot be keyed, where a selection with a
  table raises.
\<close>

theorem findIdsOfMarks_no_tables:
  "data_mc selectedMarks = [] \<Longrightarrow> findIdsOfMarks toStr allMarks selectedMarks = Inr {}"
  by (simp add: findIdsOfMarks_def)

theorem findIdsOfMarks_no_tables_witness:
  "data_mc \<lparr>data_mc = ([] :: string DataTable list)\<rparr> = []
   \<and> findIdsOfMarks (\<lambda>s. s) (getSummaryDataTable [narrowPage]) \<lparr>data_mc = []\<rparr> = Inr {}
   \<and> findIdsOfMarks (\<lambda>s. s) (getSummaryDataTable [narrowPage])
        \<lparr>data_mc = [exampleSelection]\<rparr> = Inl TypeError"
  using findIdsOfMarks_no_tables
    [of "\<lparr>data_mc = []\<rparr>" "\<lambda>s :: string. s" "getSummaryDataTable [narrowPage]"]
  by (simp add: findIdsOfMarks_def narrow_rows example_selected_rows example_selection_columns
      exampleColumns_def getProp_def valueString_def ObjectPrototypeNames_def)

text \<open>
  C8, as the specification has it: a selection with more than one data table is
  rejected. A selection with the two example tables is answered with the marks of the
  first table; the second table alone selects another mark.
\<close>

theorem findIdsOfMarks_two_tables_counterexample:
  "findIdsOfMarks (\<lambda>s. s) (getSummaryDataTable [examplePage1, examplePage2])
      \<lparr>data_mc = [exampleSelection, exampleSelection2]\<rparr> = Inr {2, 3}
   \<and> findIdsOfMarks (\<lambda>s. s) (getSummaryDataTable [examplePage1, examplePage2])
      \<lparr>data_mc = [exampleSelection2]\<rparr> = Inr {1}"
  using example_match example_match2 by (simp add: findIdsOfMarks_def)

text \<open>
  C8, amended. For a selection with more than one data table, findIdsOfMarks answers
  as it does for the first table alone; the other tables are never read.
\<close>

theorem findIdsOfMarks_first_table_only:
  "1 < length (data_mc selectedMarks) \<Longrightarrow>
     findIdsOfMarks toStr allMarks selectedMarks
       = findIdsOfMarks toStr allMarks (selectedMarks\<lparr>data_mc := [hd (data_mc selectedMarks)]\<rparr>)"
  by (cases "data_mc selectedMarks") (simp_all add: findIdsOfMarks_def)

theorem findIdsOfMarks_first_table_only_witness:
  "1 < length (data_mc \<lparr>data_mc = [exampleSelection, exampleSelection2]\<rparr>)
   \<and> findIdsOfMarks (\<lambda>s. s) (getSummaryDataTable [examplePage1, examplePage2])
        \<lparr>data_mc = [exampleSelection, exampleSelection2]\<rparr>
      = findIdsOfMarks (\<lambda>s. s) (getSummaryDataTable [examplePage1, examplePage2])
        \<lparr>data_mc = [exampleSelection]\<rparr>"
  using findIdsOfMarks_first_table_only
    [of "\<lparr>data_mc = [exampleSelection, exampleSelection2]\<rparr>" "\<lambda>s. s"
        "getSummaryDataTable [examplePage1, examplePage2]"]
  by simp


section \<open>The fog colour calculator\<close>

lemma DefaultFogBlendFactor_value: "DefaultFogBlendFactor = 3103785 / 16777216"
  unfolding DefaultFogBlendFactor_def by code_simp

lemma DarkBgFogBlendFactor_value: "DarkBgFogBlendFactor = 9227469 / 33554432"
  unfolding DarkBgFogBlendFactor_def by code_simp

lemma exponent_le:
  assumes "x \<noteq> 0"
  shows "power_int 2 (exponent x) \<le> \<bar>x\<bar>"
proof -
  obtain p q where pq: "quotient_of \<bar>x\<bar> = (p, q)" by (cases "quotient_of \<bar>x\<bar>")
  then have q: "0 < q" and x: "\<bar>x\<bar> = of_int p / of_int q"
    by (auto simp: quotient_of_denom_pos quotient_of_div)
  from assms have "0 < \<bar>x\<bar>" by simp
  with q x have p: "0 < p" by (simp add: zero_less_divide_iff)
  let ?e = "bitlen p - bitlen q"
  show ?thesis
  proof (cases "power_int 2 ?e \<le> \<bar>x\<bar>")
    case True
    with pq show ?thesis by (simp add: exponent_def)
  next
    case False
    with pq have e: "exponent x = bitlen p - 1 - bitlen q" by (simp add: exponent_def)
    from p have bp: "2 ^ nat (bitlen p - 1) \<le> p" using bitlen_bounds by blast
    from q have bq: "q < 2 ^ nat (bitlen q)" using bitlen_bounds by blast
    from p have p1: "0 \<le> bitlen p - 1" by (auto simp: bitlen_alt_def)
    have q0: "0 \<le> bitlen q" by (simp add: bitlen_nonneg)
    have "(power_int 2 (exponent x) :: rat) = power_int 2 (bitlen p - 1) / power_int 2 (bitlen q)"
      unfolding e by (simp add: power_int_diff)
    also have "\<dots> = 2 ^ nat (bitlen p - 1) / 2 ^ nat (bitlen q)"
      using p1 q0 by (simp add: power_int_def)
    also have "\<dots> \<le> of_int p / 2 ^ nat (bitlen q)"
    proof -
      have "(2::rat) ^ nat (bitlen p - 1) = of_int (2 ^ nat (bitlen p - 1))" by simp
      also have "\<dots> \<le> of_int p" using bp by (simp only: of_int_le_iff)
      finally show ?thesis by (simp add: divide_right_mono)
    qed
    also have "\<dots> \<le> of_int p / of_int q"
    proof -
      have "(of_int q :: rat) \<le> of_int (2 ^ nat (bitlen q))" using bq by (simp only: of_int_le_iff)
      then have "(of_int q :: rat) \<le> 2 ^ nat (bitlen q)" by simp
      with p q show ?thesis by (simp add: frac_le)
    qed
    finally show ?thesis using x by simp
  qed
qed

lemma roundTiesToEven_of_int: "roundTiesToEven (of_int n) = n"
  by (simp add: roundTiesToEven_def)

lemma binary64_dyadic:
  assumes "\<bar>m\<bar> < 2 ^ 53"
  shows "binary64 (of_int m / 2 ^ k) = of_int m / 2 ^ k"
proof (cases "m = 0")
  case True
  then show ?thesis by (simp add: binary64_def)
next
  case False
  let ?x = "of_int m / 2 ^ k :: rat"
  let ?e = "exponent ?x"
  from False have x0: "?x \<noteq> 0" by simp
  have "power_int 2 ?e \<le> \<bar>?x\<bar>" using x0 by (rule exponent_le)
  also have "\<bar>?x\<bar> = of_int \<bar>m\<bar> / 2 ^ k" by simp
  also have "\<dots> < 2 ^ 53 / 2 ^ k"
  proof -
    have "(of_int \<bar>m\<bar> :: rat) < of_int (2 ^ 53)" using assms by (simp only: of_int_less_iff)
    then show ?thesis by (simp add: divide_strict_right_mono)
  qed
  also have "\<dots> = power_int 2 (53 - int k)" by (simp add: power_int_diff)
  finally have lt: "(power_int 2 ?e :: rat) < power_int 2 (53 - int k)" .
  have "?e < 53 - int k"
  proof (rule ccontr)
    assume "\<not> ?e < 53 - int k"
    then have "53 - int k \<le> ?e" by simp
    then have "(power_int 2 (53 - int k) :: rat) \<le> power_int 2 ?e"
      by (rule power_int_increasing) simp
    with lt show False by simp
  qed
  then obtain d :: nat where d: "52 - ?e = int k + int d"
  proof -
    from \<open>?e < 53 - int k\<close> have "0 \<le> 52 - ?e - int k" by simp
    then obtain d where "52 - ?e - int k = int d" using nonneg_int_cases by blast
    then have "52 - ?e = int k + int d" by simp
    then show ?thesis using that by blast
  qed
  let ?u = "power_int 2 (?e - 52) :: rat"
  have u: "?u = 1 / (2 ^ k * 2 ^ d)"
  proof -
    have "?e - 52 = - (int k + int d)" using d by simp
    then have "?u = power_int 2 (- (int k + int d))" by simp
    also have "\<dots> = inverse (power_int 2 (int k + int d))" by (rule power_int_minus)
    also have "\<dots> = inverse (power_int 2 (int (k + d)))" by (simp only: of_nat_add)
    also have "\<dots> = inverse (2 ^ (k + d))" by (simp only: power_int_of_nat)
    also have "\<dots> = 1 / (2 ^ k * 2 ^ d)" by (simp only: power_add inverse_eq_divide)
    finally show ?thesis .
  qed
  have "?x / ?u = of_int (m * 2 ^ d)" by (simp add: u)
  then have "roundTiesToEven (?x / ?u) = m * 2 ^ d" by (simp only: roundTiesToEven_of_int)
  then have "binary64 ?x = of_int (m * 2 ^ d) * ?u"
    using x0 by (simp add: binary64_def Let_def)
  also have "\<dots> = ?x" by (simp add: u)
  finally show ?thesis .
qed


lemma toUint32_floor: "0 \<le> x \<Longrightarrow> x < 2 ^ 32 \<Longrightarrow> toUint32 x = \<lfloor>x\<rfloor>"
proof -
  assume x: "0 \<le> x" "x < 2 ^ 32"
  then have "0 \<le> \<lfloor>x\<rfloor>" by simp
  moreover from x have "\<lfloor>x\<rfloor> < 2 ^ 32" by (simp add: floor_less_iff)
  ultimately show ?thesis using x by (simp add: toUint32_def)
qed

lemma foggedChannel_dyadic:
  assumes a: "0 \<le> a" "a \<le> 2 ^ 25" and c: "0 \<le> c" "c \<le> 255"
  shows "foggedChannel (of_int a / 2 ^ 25) c = \<lfloor>(1 - of_int a / 2 ^ 25 :: rat) * of_int c\<rfloor>"
proof -
  let ?m = "2 ^ 25 - a"
  have m: "0 \<le> ?m" "?m \<le> 2 ^ 25" using a by simp_all
  have one: "(1 - of_int a / 2 ^ 25 :: rat) = of_int ?m / 2 ^ 25"
    by (simp add: field_simps)
  have "\<bar>?m\<bar> < 2 ^ 53" using m by simp
  then have sub: "fsub 1 (of_int a / 2 ^ 25) = of_int ?m / 2 ^ 25"
    unfolding fsub_def one by (rule binary64_dyadic)
  have mc: "0 \<le> ?m * c" "?m * c \<le> 2 ^ 25 * 255"
  proof -
    show "0 \<le> ?m * c" using m(1) c(1) by (rule mult_nonneg_nonneg)
    show "?m * c \<le> 2 ^ 25 * 255" using m(2) c(2) _ c(1) by (rule mult_mono) simp
  qed
  then have "\<bar>?m * c\<bar> < 2 ^ 53" by simp
  then have "binary64 (of_int (?m * c) / 2 ^ 25) = of_int (?m * c) / 2 ^ 25"
    by (rule binary64_dyadic)
  then have mul: "fmul (of_int ?m / 2 ^ 25) (of_int c) = of_int (?m * c) / 2 ^ 25"
    by (simp add: fmul_def)
  have "(0::rat) \<le> of_int (?m * c)" using mc(1) by (simp only: of_int_0_le_iff)
  then have nonneg: "(0::rat) \<le> of_int (?m * c) / 2 ^ 25" by simp
  have "(of_int (?m * c) :: rat) \<le> of_int (2 ^ 25 * 255)" using mc(2) by (simp only: of_int_le_iff)
  then have "(of_int (?m * c) :: rat) / 2 ^ 25 \<le> 255" by (simp add: field_simps)
  then have small: "(of_int (?m * c) :: rat) / 2 ^ 25 < 2 ^ 32" by simp
  have "foggedChannel (of_int a / 2 ^ 25) c = toUint32 (of_int (?m * c) / 2 ^ 25)"
    by (simp only: foggedChannel_def sub mul)
  also have "\<dots> = \<lfloor>(of_int (?m * c) :: rat) / 2 ^ 25\<rfloor>"
    using nonneg small by (rule toUint32_floor)
  also have "(of_int (?m * c) :: rat) / 2 ^ 25 = (1 - of_int a / 2 ^ 25) * of_int c"
    by (simp add: one)
  finally show ?thesis .
qed

lemma foggedChannel_exact:
  assumes "f = DefaultFogBlendFactor \<or> f = DarkBgFogBlendFactor" and "0 \<le> c" and "c \<le> 255"
  shows "foggedChannel f c = \<lfloor>(1 - f) * of_int c\<rfloor>"
proof -
  have d: "DefaultFogBlendFactor = of_int 6207570 / 2 ^ 25"
    by (simp add: DefaultFogBlendFactor_value)
  have k: "DarkBgFogBlendFactor = of_int 9227469 / 2 ^ 25"
    by (simp add: DarkBgFogBlendFactor_value)
  have "foggedChannel (of_int 6207570 / 2 ^ 25) c
          = \<lfloor>(1 - of_int 6207570 / 2 ^ 25 :: rat) * of_int c\<rfloor>"
    using assms(2,3) by (intro foggedChannel_dyadic) simp_all
  then have 1: "foggedChannel DefaultFogBlendFactor c
                  = \<lfloor>(1 - DefaultFogBlendFactor) * of_int c\<rfloor>"
    by (simp only: d)
  have "foggedChannel (of_int 9227469 / 2 ^ 25) c
          = \<lfloor>(1 - of_int 9227469 / 2 ^ 25 :: rat) * of_int c\<rfloor>"
    using assms(2,3) by (intro foggedChannel_dyadic) simp_all
  then have 2: "foggedChannel DarkBgFogBlendFactor c
                  = \<lfloor>(1 - DarkBgFogBlendFactor) * of_int c\<rfloor>"
    by (simp only: k)
  from assms(1) 1 2 show ?thesis by blast
qed

lemma blend_factors_differ: "DarkBgFogBlendFactor \<noteq> DefaultFogBlendFactor"
  by (simp add: DefaultFogBlendFactor_value DarkBgFogBlendFactor_value)

lemma getFogBlendFactor_cases:
  "getFogBlendFactor color = DefaultFogBlendFactor \<or> getFogBlendFactor color = DarkBgFogBlendFactor"
  by (simp add: getFogBlendFactor_def)

lemma white_factor: "getFogBlendFactor white = 3103785 / 16777216"
  by (simp add: white_def getFogBlendFactor_def DarkBgThreshold_def DefaultFogBlendFactor_value)

lemma white_channels: "rgb_r white = 255" "rgb_g white = 255" "rgb_b white = 255"
  by (simp_all add: white_def)

lemma pureRed_channels: "rgb_r pureRed = 255" "rgb_g pureRed = 0" "rgb_b pureRed = 0"
  by (simp_all add: pureRed_def)

lemma pureRed_factor: "getFogBlendFactor pureRed = 3103785 / 16777216"
  by (simp add: pureRed_def getFogBlendFactor_def DarkBgThreshold_def DefaultFogBlendFactor_value)

lemma foggedChannel_default_245: "foggedChannel (3103785 / 16777216) 245 = 199"
  by code_simp

lemma foggedChannel_default_255: "foggedChannel (3103785 / 16777216) 255 = 207"
  by code_simp

text \<open>
  C9. getFogBlendFactor returns the dark-background factor, the binary64 value of
  0.2750000059604645, exactly when all three channels are at most 75, and the default
  factor, the binary64 value of 0.1850000023841858, exactly when some channel exceeds
  75.
\<close>

theorem getFogBlendFactor_threshold:
  "(getFogBlendFactor color = DarkBgFogBlendFactor
      \<longleftrightarrow> rgb_r color \<le> 75 \<and> rgb_g color \<le> 75 \<and> rgb_b color \<le> 75)
   \<and> (getFogBlendFactor color = DefaultFogBlendFactor
      \<longleftrightarrow> 75 < rgb_r color \<or> 75 < rgb_g color \<or> 75 < rgb_b color)
   \<and> DarkBgFogBlendFactor = binary64 (2750000059604645 / 10 ^ 16)
   \<and> DefaultFogBlendFactor = binary64 (1850000023841858 / 10 ^ 16)"
  using blend_factors_differ
  by (auto simp: getFogBlendFactor_def DarkBgThreshold_def DarkBgFogBlendFactor_def
      DefaultFogBlendFactor_def)

theorem getFogBlendFactor_threshold_witness:
  "getFogBlendFactor \<lparr>rgb_r = 75, rgb_g = 75, rgb_b = 75\<rparr> = DarkBgFogBlendFactor
   \<and> getFogBlendFactor \<lparr>rgb_r = 75, rgb_g = 76, rgb_b = 75\<rparr> = DefaultFogBlendFactor"
  using getFogBlendFactor_threshold [of "\<lparr>rgb_r = 75, rgb_g = 75, rgb_b = 75\<rparr>"]
    getFogBlendFactor_threshold [of "\<lparr>rgb_r = 75, rgb_g = 76, rgb_b = 75\<rparr>"]
  by simp

text \<open>
  C10, as the specification has it: every channel above 245 is lowered to 245 before
  blending. For pure red, with the blend factor of that background, the red channel 255
  is blended as it is and gives 207; lowered to 245 it would give 199.
\<close>

theorem computeFoggedBackgroundColor_clamp_counterexample:
  "foggedBackgroundRed (computeFoggedBackgroundColor pureRed (getFogBlendFactor pureRed)) = 207
   \<and> foggedChannel (getFogBlendFactor pureRed) (min (rgb_r pureRed) 245) = 199"
  by (simp add: pureRed_factor pureRed_channels computeFoggedBackgroundColor_def
      closeToWhiteColor_def CloseToWhite_def foggedChannel_default_245
      foggedChannel_default_255)

text \<open>
  C10, amended. For a background with channels from 0 to 255 and either blend factor,
  computeFoggedBackgroundColor replaces the background by (245, 245, 245) when all three
  channels are at least 245 and leaves it unchanged otherwise; each fogged channel is
  then the integer part of (1 - blend factor) times that channel, a product that
  binary64 arithmetic forms without rounding. A background of (255, 255, 255) is
  blended as (245, 245, 245).
\<close>

theorem computeFoggedBackgroundColor_close_to_white:
  assumes "f = getFogBlendFactor background"
    and "0 \<le> rgb_r color" "rgb_r color \<le> 255"
    and "0 \<le> rgb_g color" "rgb_g color \<le> 255"
    and "0 \<le> rgb_b color" "rgb_b color \<le> 255"
  shows "computeFoggedBackgroundColor color f =
           (if 245 \<le> rgb_r color \<and> 245 \<le> rgb_g color \<and> 245 \<le> rgb_b color
            then \<lparr>foggedBackgroundRed = \<lfloor>(1 - f) * 245\<rfloor>,
                  foggedBackgroundGreen = \<lfloor>(1 - f) * 245\<rfloor>,
                  foggedBackgroundBlue = \<lfloor>(1 - f) * 245\<rfloor>\<rparr>
            else \<lparr>foggedBackgroundRed = \<lfloor>(1 - f) * of_int (rgb_r color)\<rfloor>,
                  foggedBackgroundGreen = \<lfloor>(1 - f) * of_int (rgb_g color)\<rfloor>,
                  foggedBackgroundBlue = \<lfloor>(1 - f) * of_int (rgb_b color)\<rfloor>\<rparr>)"
proof -
  have f: "f = DefaultFogBlendFactor \<or> f = DarkBgFogBlendFactor"
    using assms(1) getFogBlendFactor_cases by simp
  have ch: "foggedChannel f c = \<lfloor>(1 - f) * of_int c\<rfloor>" if "0 \<le> c" "c \<le> 255" for c
    using f that by (rule foggedChannel_exact)
  have w: "foggedChannel f 245 = \<lfloor>(1 - f) * 245\<rfloor>"
    using ch [of 245] by simp
  show ?thesis
    using assms(2-) by (simp add: computeFoggedBackgroundColor_def closeToWhiteColor_def
        CloseToWhite_def w ch)
qed

theorem computeFoggedBackgroundColor_close_to_white_witness:
  "0 \<le> rgb_r white \<and> rgb_r white \<le> 255
   \<and> 0 \<le> rgb_g white \<and> rgb_g white \<le> 255
   \<and> 0 \<le> rgb_b white \<and> rgb_b white \<le> 255
   \<and> computeFoggedBackgroundColor white (getFogBlendFactor white)
       = \<lparr>foggedBackgroundRed = 199, foggedBackgroundGreen = 199, foggedBackgroundBlue = 199\<rparr>"
  using computeFoggedBackgroundColor_close_to_white [of "getFogBlendFactor white" white white]
  by (simp add: white_factor white_channels floor_eq_iff)

end
